theory Spec2Isabelle
  imports Main "HOL-Library.AList"
begin

section \<open>Runtime overload dispatch (overload.py)\<close>

text \<open>
  The module dispatches a call to the one registered function whose parameters bind the
  supplied arguments and whose annotations accept the bound values.  The embedding
  follows the source statement by statement.  What the module uses and does not define
  is made explicit:
  \<^item> \<^verbatim>\<open>typeguard.check_type\<close> is a parameter \<open>check_type\<close> of every function that
    reaches it: it returns (\<open>None\<close>) or raises (\<open>Some e\<close>);
  \<^item> \<^verbatim>\<open>typing.get_type_hints\<close> is a field of the function object: the dictionary it
    returns for that function, or the exception it raises;
  \<^item> \<^verbatim>\<open>inspect.Signature.bind\<close> and \<^verbatim>\<open>BoundArguments.apply_defaults\<close> are modelled
    below from the interpreter's library;
  \<^item> the body of a registered function is user code, which runs inside \<^verbatim>\<open>__call__\<close> and
    can reach the handle it is registered on: executing it is a parameter \<open>run\<close> of the
    call, from the function's code, the arguments and the handle as the body finds it to
    the body's outcome and the handle as the body leaves it.
\<close>

subsection \<open>Values, exceptions, function objects\<close>

text \<open>
  Python values are atoms of any type \<open>'a\<close>, closed under the two containers that
  argument binding itself builds: the tuple bound to \<^verbatim>\<open>*args\<close> and the dictionary bound
  to \<^verbatim>\<open>**kwargs\<close>.
\<close>

datatype 'a "value" =
    Atom 'a
  | TupleV "'a value list"
  | DictV "(string \<times> 'a value) list"

type_synonym 'a args = "'a value list"
type_synonym 'a kwargs = "(string \<times> 'a value) list"

text \<open>
  Exception messages are kept structured: which literal of the source the message is,
  and the values its f-string interpolates.  A constructor of \<open>exn\<close> stands for an
  exception class together with its subclasses.
\<close>

datatype 'a message =
    NoMatchingFunction "'a args" "'a kwargs"
  | MultipleFunctionsMatched "'a args" "'a kwargs"
  | CannotDecorateVarArgs
  | Text string

datatype 'a exn =
    TypeError "'a message"
  | ValueError "'a message"
  | NameError string
  | TypeCheckError
  | OtherException string

datatype kind =
    POSITIONAL_ONLY
  | POSITIONAL_OR_KEYWORD
  | VAR_POSITIONAL
  | KEYWORD_ONLY
  | VAR_KEYWORD

text \<open>\<^verbatim>\<open>inspect.Parameter\<close>; \<open>param_default = None\<close> is \<^verbatim>\<open>Parameter.empty\<close>.\<close>

record 'a Parameter =
  param_name :: string
  param_kind :: kind
  param_default :: "'a value option"

text \<open>An annotation is \<^verbatim>\<open>typing.Any\<close> or a type descriptor that the checker understands.\<close>

datatype 't annotation = Any | Hint 't

text \<open>
  A function object: its \<^verbatim>\<open>__name__\<close>, the ordered parameters that
  \<^verbatim>\<open>inspect.signature\<close> reports, the outcome of \<^verbatim>\<open>get_type_hints\<close> on it, and its code
  (\<^verbatim>\<open>__code__\<close>), of any type \<open>'c\<close>: the module never looks into it, it only calls
  the function.
\<close>

record ('a, 't, 'c) callable =
  fn_name :: string
  fn_parameters :: "'a Parameter list"
  fn_type_hints :: "'a exn + (string \<times> 't annotation) list"
  fn_code :: 'c

subsection \<open>The type check\<close>

text \<open>\<^verbatim>\<open>_check_argument_type\<close>: only \<^verbatim>\<open>TypeCheckError\<close> is turned into \<^verbatim>\<open>False\<close>.\<close>

definition check_argument_type ::
  "('a value \<Rightarrow> 't \<Rightarrow> 'a exn option) \<Rightarrow> 'a value \<Rightarrow> 't \<Rightarrow> 'a exn + bool" where
  "check_argument_type check_type v expected_type =
     (case check_type v expected_type of
        None \<Rightarrow> Inr True
      | Some TypeCheckError \<Rightarrow> Inr False
      | Some e \<Rightarrow> Inl e)"

subsection \<open>Signature extraction\<close>

text \<open>The dictionary that \<^verbatim>\<open>get_function_signature\<close> builds for each parameter.\<close>

record ('a, 't) param_info =
  info_name :: string
  info_kind :: kind
  info_default :: "'a value option"
  info_required :: bool
  info_annotation :: "'t annotation"

record ('a, 't) signature =
  sig_name :: string
  return_annotation :: "'t annotation"
  parameters :: "('a, 't) param_info list"

text \<open>\<^verbatim>\<open>type_hints.get(name, Any)\<close>\<close>

definition hint_get :: "(string \<times> 't annotation) list \<Rightarrow> string \<Rightarrow> 't annotation" where
  "hint_get type_hints n = (case map_of type_hints n of None \<Rightarrow> Any | Some a \<Rightarrow> a)"

definition mk_param_info ::
  "(string \<times> 't annotation) list \<Rightarrow> 'a Parameter \<Rightarrow> ('a, 't) param_info" where
  "mk_param_info type_hints param =
     \<lparr> info_name = param_name param,
       info_kind = param_kind param,
       info_default = param_default param,
       info_required = (param_default param = None),
       info_annotation = hint_get type_hints (param_name param) \<rparr>"

definition get_function_signature ::
  "('a, 't, 'c) callable \<Rightarrow> 'a exn + ('a, 't) signature" where
  "get_function_signature func =
     (case fn_type_hints func of
        Inl e \<Rightarrow> Inl e
      | Inr type_hints \<Rightarrow>
          Inr \<lparr> sig_name = fn_name func,
                return_annotation = hint_get type_hints ''return'',
                parameters = map (mk_param_info type_hints) (fn_parameters func) \<rparr>)"

subsection \<open>Argument binding\<close>

text \<open>
  Modelled from the spec: \<^verbatim>\<open>inspect.Signature.bind\<close> is the interpreter's library, not
  this repository.  The spec gives its rules (positional arguments fill
  positional-capable parameters left to right, keyword arguments fill by name, a
  required parameter without a value fails the binding); the two phases below follow the
  library's \<^verbatim>\<open>_bind\<close> (CPython 3.11) branch by branch.  Every failure is a
  \<^verbatim>\<open>TypeError\<close>.  The bound arguments are an ordered dictionary, here an association
  list with \<open>AList.update\<close> as item assignment and \<open>AList.delete\<close> as \<^verbatim>\<open>pop\<close>.
\<close>

type_synonym 'a arguments = "(string \<times> 'a value) list"

fun bind_positional ::
  "'a Parameter list \<Rightarrow> 'a args \<Rightarrow> 'a kwargs \<Rightarrow> 'a arguments
     \<Rightarrow> 'a exn + ('a arguments \<times> 'a Parameter list)" where
  "bind_positional [] [] kwargs arguments = Inr (arguments, [])"
| "bind_positional (param # params) [] kwargs arguments =
     (if param_kind param = VAR_POSITIONAL then Inr (arguments, params)
      else if map_of kwargs (param_name param) \<noteq> None then
        (if param_kind param = POSITIONAL_ONLY
         then Inl (TypeError (Text (param_name param @ '' parameter is positional only, but was passed as a keyword'')))
         else Inr (arguments, param # params))
      else if param_kind param = VAR_KEYWORD \<or> param_default param \<noteq> None
        then Inr (arguments, param # params)
      else Inl (TypeError (Text (''missing a required argument: '' @ param_name param))))"
| "bind_positional [] (arg_val # arg_vals) kwargs arguments =
     Inl (TypeError (Text ''too many positional arguments''))"
| "bind_positional (param # params) (arg_val # arg_vals) kwargs arguments =
     (if param_kind param = VAR_KEYWORD \<or> param_kind param = KEYWORD_ONLY
        then Inl (TypeError (Text ''too many positional arguments''))
      else if param_kind param = VAR_POSITIONAL
        then Inr (AList.update (param_name param) (TupleV (arg_val # arg_vals)) arguments, params)
      else if map_of kwargs (param_name param) \<noteq> None \<and> param_kind param \<noteq> POSITIONAL_ONLY
        then Inl (TypeError (Text (''multiple values for argument '' @ param_name param)))
      else bind_positional params arg_vals kwargs
             (AList.update (param_name param) arg_val arguments))"

fun bind_keywords ::
  "'a Parameter list \<Rightarrow> 'a kwargs \<Rightarrow> 'a arguments \<Rightarrow> 'a Parameter option
     \<Rightarrow> 'a exn + ('a arguments \<times> 'a kwargs \<times> 'a Parameter option)" where
  "bind_keywords [] kwargs arguments kwargs_param = Inr (arguments, kwargs, kwargs_param)"
| "bind_keywords (param # params) kwargs arguments kwargs_param =
     (if param_kind param = VAR_KEYWORD then bind_keywords params kwargs arguments (Some param)
      else if param_kind param = VAR_POSITIONAL
        then bind_keywords params kwargs arguments kwargs_param
      else
        (case map_of kwargs (param_name param) of
           None \<Rightarrow>
             (if param_default param = None
              then Inl (TypeError (Text (''missing a required argument: '' @ param_name param)))
              else bind_keywords params kwargs arguments kwargs_param)
         | Some arg_val \<Rightarrow>
             (if param_kind param = POSITIONAL_ONLY
              then Inl (TypeError (Text (param_name param @ '' parameter is positional only, but was passed as a keyword'')))
              else bind_keywords params (AList.delete (param_name param) kwargs)
                     (AList.update (param_name param) arg_val arguments) kwargs_param)))"

definition bind :: "'a Parameter list \<Rightarrow> 'a args \<Rightarrow> 'a kwargs \<Rightarrow> 'a exn + 'a arguments" where
  "bind params args kwargs =
     (case bind_positional params args kwargs [] of
        Inl e \<Rightarrow> Inl e
      | Inr (arguments, rest) \<Rightarrow>
          (case bind_keywords rest kwargs arguments None of
             Inl e \<Rightarrow> Inl e
           | Inr (arguments', kwargs', kwargs_param) \<Rightarrow>
               (if kwargs' \<noteq> [] then
                  (case kwargs_param of
                     Some p \<Rightarrow> Inr (AList.update (param_name p) (DictV kwargs') arguments')
                   | None \<Rightarrow>
                       Inl (TypeError (Text (''got an unexpected keyword argument '' @ fst (hd kwargs')))))
                else Inr arguments')))"

text \<open>
  Modelled from the spec: \<^verbatim>\<open>BoundArguments.apply_defaults\<close> (step 2 of the spec's
  algorithm), after the library's loop over the signature's parameters.
\<close>

fun apply_defaults :: "'a Parameter list \<Rightarrow> 'a arguments \<Rightarrow> 'a arguments" where
  "apply_defaults [] arguments = []"
| "apply_defaults (param # params) arguments =
     (case map_of arguments (param_name param) of
        Some v \<Rightarrow> (param_name param, v) # apply_defaults params arguments
      | None \<Rightarrow>
          (case param_default param of
             Some d \<Rightarrow> (param_name param, d) # apply_defaults params arguments
           | None \<Rightarrow>
               (if param_kind param = VAR_POSITIONAL
                  then (param_name param, TupleV []) # apply_defaults params arguments
                else if param_kind param = VAR_KEYWORD
                  then (param_name param, DictV []) # apply_defaults params arguments
                else apply_defaults params arguments)))"

subsection \<open>The dispatch handle\<close>

record ('a, 't, 'c) OverloadFunction =
  func_list :: "('a, 't, 'c) callable list"
  signatures :: "('a, 't) signature list"

text \<open>The loop that both registration entry points run over the parameters.\<close>

fun check_no_varargs :: "'a Parameter list \<Rightarrow> 'a exn + unit" where
  "check_no_varargs [] = Inr ()"
| "check_no_varargs (param # params) =
     (if param_kind param = VAR_POSITIONAL \<or> param_kind param = VAR_KEYWORD
      then Inl (ValueError CannotDecorateVarArgs)
      else check_no_varargs params)"

text \<open>
  \<^verbatim>\<open>__init__\<close>: an exception leaves no handle behind, so the result is the exception or
  the new handle.
\<close>

definition init :: "('a, 't, 'c) callable \<Rightarrow> 'a exn + ('a, 't, 'c) OverloadFunction" where
  "init func =
     (case check_no_varargs (fn_parameters func) of
        Inl e \<Rightarrow> Inl e
      | Inr _ \<Rightarrow>
          (case get_function_signature func of
             Inl e \<Rightarrow> Inl e
           | Inr s \<Rightarrow> Inr \<lparr> func_list = [func], signatures = [s] \<rparr>))"

text \<open>
  \<^verbatim>\<open>overload\<close> mutates an existing handle, so it returns the handle as the statement
  that raised (or the \<^verbatim>\<open>return self\<close>) leaves it: line 134 appends to \<^verbatim>\<open>func_list\<close>
  before line 135 evaluates \<^verbatim>\<open>get_function_signature(func)\<close>.
\<close>

definition overload ::
  "('a, 't, 'c) OverloadFunction \<Rightarrow> ('a, 't, 'c) callable
     \<Rightarrow> ('a exn + unit) \<times> ('a, 't, 'c) OverloadFunction" where
  "overload self func =
     (case check_no_varargs (fn_parameters func) of
        Inl e \<Rightarrow> (Inl e, self)
      | Inr _ \<Rightarrow>
          (let self1 = self\<lparr> func_list := func_list self @ [func] \<rparr> in
           case get_function_signature func of
             Inl e \<Rightarrow> (Inl e, self1)
           | Inr s \<Rightarrow> (Inr (), self1\<lparr> signatures := signatures self1 @ [s] \<rparr>)))"

text \<open>
  The inner loop of \<^verbatim>\<open>__call__\<close> (lines 105 to 114); its value is \<^verbatim>\<open>type_matched\<close>,
  and \<^verbatim>\<open>break\<close> is the \<open>Inr False\<close> that ends the recursion.
\<close>

fun check_parameters ::
  "('a value \<Rightarrow> 't \<Rightarrow> 'a exn option) \<Rightarrow> 'a arguments \<Rightarrow> ('a, 't) param_info list
     \<Rightarrow> 'a exn + bool" where
  "check_parameters check_type arguments [] = Inr True"
| "check_parameters check_type arguments (param # params) =
     (case map_of arguments (info_name param) of
        None \<Rightarrow> check_parameters check_type arguments params
      | Some arg_value \<Rightarrow>
          (case info_annotation param of
             Any \<Rightarrow> check_parameters check_type arguments params
           | Hint expected_type \<Rightarrow>
               (case check_argument_type check_type arg_value expected_type of
                  Inl e \<Rightarrow> Inl e
                | Inr False \<Rightarrow> Inr False
                | Inr True \<Rightarrow> check_parameters check_type arguments params)))"

text \<open>The body of the \<^verbatim>\<open>try\<close> block for one pair of the \<^verbatim>\<open>zip\<close> (lines 100 to 116).\<close>

definition try_candidate ::
  "('a value \<Rightarrow> 't \<Rightarrow> 'a exn option) \<Rightarrow> 'a args \<Rightarrow> 'a kwargs
     \<Rightarrow> ('a, 't, 'c) callable \<times> ('a, 't) signature \<Rightarrow> 'a exn + bool" where
  "try_candidate check_type args kwargs c =
     (case bind (fn_parameters (fst c)) args kwargs of
        Inl e \<Rightarrow> Inl e
      | Inr bound_args \<Rightarrow>
          check_parameters check_type
            (apply_defaults (fn_parameters (fst c)) bound_args) (parameters (snd c)))"

text \<open>
  The outer loop (lines 97 to 118) with \<^verbatim>\<open>matched_funcs\<close> as accumulator:
  \<^verbatim>\<open>except TypeError: continue\<close> skips the pair, any other exception leaves the loop.
\<close>

fun match_loop ::
  "('a value \<Rightarrow> 't \<Rightarrow> 'a exn option) \<Rightarrow> 'a args \<Rightarrow> 'a kwargs
     \<Rightarrow> (('a, 't, 'c) callable \<times> ('a, 't) signature) list \<Rightarrow> ('a, 't, 'c) callable list
     \<Rightarrow> 'a exn + ('a, 't, 'c) callable list" where
  "match_loop check_type args kwargs [] matched_funcs = Inr matched_funcs"
| "match_loop check_type args kwargs (c # cs) matched_funcs =
     (case try_candidate check_type args kwargs c of
        Inr True \<Rightarrow> match_loop check_type args kwargs cs (matched_funcs @ [fst c])
      | Inr False \<Rightarrow> match_loop check_type args kwargs cs matched_funcs
      | Inl (TypeError m) \<Rightarrow> match_loop check_type args kwargs cs matched_funcs
      | Inl e \<Rightarrow> Inl e)"

text \<open>The pairs that the loop visits: \<^verbatim>\<open>zip(self.func_list, self.signatures)\<close>.\<close>

definition candidates ::
  "('a, 't, 'c) OverloadFunction \<Rightarrow> (('a, 't, 'c) callable \<times> ('a, 't) signature) list" where
  "candidates self = zip (func_list self) (signatures self)"

text \<open>
  Calling a function object executes its body.  The body is user code: it can reach the
  handle through the name the handle is bound to, call \<^verbatim>\<open>overload\<close> on it, or assign to
  its lists.  \<open>run\<close> stands for the interpreter: it takes the code, the arguments and the
  handle as the body finds it, and gives the body's result or exception and the handle
  as the body leaves it.
\<close>

type_synonym ('a, 't, 'c) run =
  "'c \<Rightarrow> 'a args \<Rightarrow> 'a kwargs \<Rightarrow> ('a, 't, 'c) OverloadFunction
     \<Rightarrow> ('a exn + 'a value) \<times> ('a, 't, 'c) OverloadFunction"

text \<open>
  The end of \<^verbatim>\<open>__call__\<close>, once the loop is over: an exception that left the loop
  leaves the call, otherwise lines 120 to 125 decide on \<^verbatim>\<open>matched_funcs\<close>.  Only
  line 125 runs a body, on the handle as the loop left it.
\<close>

definition decide ::
  "('a, 't, 'c) run \<Rightarrow> ('a, 't, 'c) OverloadFunction \<Rightarrow> 'a args \<Rightarrow> 'a kwargs
     \<Rightarrow> 'a exn + ('a, 't, 'c) callable list
     \<Rightarrow> ('a exn + 'a value) \<times> ('a, 't, 'c) OverloadFunction" where
  "decide run self args kwargs looped =
     (case looped of
        Inl e \<Rightarrow> (Inl e, self)
      | Inr matched_funcs \<Rightarrow>
          (if length matched_funcs = 0
             then (Inl (TypeError (NoMatchingFunction args kwargs)), self)
           else if length matched_funcs > 1
             then (Inl (TypeError (MultipleFunctionsMatched args kwargs)), self)
           else run (fn_code (matched_funcs ! 0)) args kwargs self))"

text \<open>\<^verbatim>\<open>__call__\<close>: the outcome of the call and the handle after it.\<close>

definition call ::
  "('a, 't, 'c) run \<Rightarrow> ('a value \<Rightarrow> 't \<Rightarrow> 'a exn option) \<Rightarrow> ('a, 't, 'c) OverloadFunction
     \<Rightarrow> 'a args \<Rightarrow> 'a kwargs \<Rightarrow> ('a exn + 'a value) \<times> ('a, 't, 'c) OverloadFunction" where
  "call run check_type self args kwargs =
     decide run self args kwargs (match_loop check_type args kwargs (candidates self) [])"

subsection \<open>Outcomes of one candidate\<close>

text \<open>
  What the outer loop does with one pair depends only on how its \<^verbatim>\<open>try\<close> block ends:
  the function is appended (\<open>survives\<close>), the pair is passed over (\<open>skipped\<close>: the type
  check said no, or a \<^verbatim>\<open>TypeError\<close> was caught), or an exception that the handler does
  not name leaves the loop and the call (\<open>propagates\<close>).
\<close>

definition survives ::
  "('a value \<Rightarrow> 't \<Rightarrow> 'a exn option) \<Rightarrow> 'a args \<Rightarrow> 'a kwargs
     \<Rightarrow> ('a, 't, 'c) callable \<times> ('a, 't) signature \<Rightarrow> bool" where
  "survives check_type args kwargs c \<longleftrightarrow> try_candidate check_type args kwargs c = Inr True"

definition skipped ::
  "('a value \<Rightarrow> 't \<Rightarrow> 'a exn option) \<Rightarrow> 'a args \<Rightarrow> 'a kwargs
     \<Rightarrow> ('a, 't, 'c) callable \<times> ('a, 't) signature \<Rightarrow> bool" where
  "skipped check_type args kwargs c \<longleftrightarrow>
     (case try_candidate check_type args kwargs c of
        Inr b \<Rightarrow> \<not> b
      | Inl (TypeError m) \<Rightarrow> True
      | Inl e \<Rightarrow> False)"

definition propagates ::
  "('a value \<Rightarrow> 't \<Rightarrow> 'a exn option) \<Rightarrow> 'a args \<Rightarrow> 'a kwargs
     \<Rightarrow> ('a, 't, 'c) callable \<times> ('a, 't) signature \<Rightarrow> bool" where
  "propagates check_type args kwargs c \<longleftrightarrow>
     (case try_candidate check_type args kwargs c of
        Inr b \<Rightarrow> False
      | Inl (TypeError m) \<Rightarrow> False
      | Inl e \<Rightarrow> True)"

subsection \<open>The binding failures that the spec names\<close>

text \<open>
  The three causes in the spec's words, for a parameter list without \<^verbatim>\<open>*args\<close> and
  \<^verbatim>\<open>**kwargs\<close>: more positional arguments than positional-capable parameters, a keyword
  that names no parameter, and a parameter without default that receives neither a
  positional nor a keyword argument.
\<close>

definition positional_capable :: "'a Parameter \<Rightarrow> bool" where
  "positional_capable p \<longleftrightarrow>
     param_kind p = POSITIONAL_ONLY \<or> param_kind p = POSITIONAL_OR_KEYWORD"

definition arity_mismatch :: "'a Parameter list \<Rightarrow> 'a args \<Rightarrow> bool" where
  "arity_mismatch params args \<longleftrightarrow> length (filter positional_capable params) < length args"

definition unknown_keyword :: "'a Parameter list \<Rightarrow> 'a kwargs \<Rightarrow> bool" where
  "unknown_keyword params kwargs \<longleftrightarrow>
     list_ex (\<lambda>k. k \<notin> set (map param_name params)) (map fst kwargs)"

definition missing_required :: "'a Parameter list \<Rightarrow> 'a args \<Rightarrow> 'a kwargs \<Rightarrow> bool" where
  "missing_required params args kwargs \<longleftrightarrow>
     list_ex (\<lambda>p. param_default p = None \<and> map_of kwargs (param_name p) = None)
       (drop (length args) params)"

subsection \<open>Handles that the interface can produce\<close>

definition has_varargs :: "'a Parameter list \<Rightarrow> bool" where
  "has_varargs params \<longleftrightarrow>
     list_ex (\<lambda>p. param_kind p = VAR_POSITIONAL \<or> param_kind p = VAR_KEYWORD) params"

text \<open>\<^verbatim>\<open>self.overload(g)\<close> for each \<open>g\<close> of a list in turn, whether it returns or raises.\<close>

definition register_all ::
  "('a, 't, 'c) OverloadFunction \<Rightarrow> ('a, 't, 'c) callable list \<Rightarrow> ('a, 't, 'c) OverloadFunction" where
  "register_all self gs = foldl (\<lambda>h g. snd (overload h g)) self gs"

text \<open>
  A handle exists once \<^verbatim>\<open>__init__\<close> has returned; afterwards it is touched by
  \<^verbatim>\<open>overload\<close> (whether it returns or raises) and by calls whose invoked body, if any,
  reaches the handle through \<^verbatim>\<open>overload\<close>.
\<close>

inductive reachable :: "('a, 't, 'c) OverloadFunction \<Rightarrow> bool" where
  reach_init: "init func = Inr self \<Longrightarrow> reachable self"
| reach_overload: "reachable self \<Longrightarrow> reachable (snd (overload self func))"
| reach_call:
    "reachable self \<Longrightarrow>
     snd (call (run :: ('a, 't, 'c) run) (check_type :: 'a value \<Rightarrow> 't \<Rightarrow> 'a exn option)
            self args kwargs) = register_all self gs \<Longrightarrow>
     reachable (snd (call run check_type self args kwargs))"

text \<open>No member of either list has a \<^verbatim>\<open>*args\<close> or \<^verbatim>\<open>**kwargs\<close> parameter.\<close>

definition no_varargs_inside :: "('a, 't, 'c) OverloadFunction \<Rightarrow> bool" where
  "no_varargs_inside self \<longleftrightarrow>
     list_all (\<lambda>f. \<not> has_varargs (fn_parameters f)) (func_list self)
     \<and> list_all (\<lambda>sg. list_all (\<lambda>k. k \<noteq> VAR_POSITIONAL \<and> k \<noteq> VAR_KEYWORD)
                        (map info_kind (parameters sg))) (signatures self)"

subsection \<open>The scenarios of the spec\<close>

text \<open>
  Modelled from the spec: the type checker is \<^verbatim>\<open>typeguard\<close>, not this repository.
  \<open>sample_check\<close> is the compatibility predicate on the three annotations that the spec's
  scenarios use (\<^verbatim>\<open>int\<close>, \<^verbatim>\<open>str\<close>, \<^verbatim>\<open>object\<close>) over integer and string values, and on two
  annotations on which the checker itself raises: \<open>BrokenT\<close>, where it raises
  \<^verbatim>\<open>TypeError\<close>, and \<open>WeirdT\<close>, a class whose instance check raises \<^verbatim>\<open>RuntimeError\<close>.
\<close>

datatype atom = IntA int | StrA string

datatype pytype = IntT | StrT | ObjectT | BrokenT | WeirdT

fun sample_check :: "atom value \<Rightarrow> pytype \<Rightarrow> atom exn option" where
  "sample_check (Atom (IntA i)) IntT = None"
| "sample_check v IntT = Some TypeCheckError"
| "sample_check (Atom (StrA s)) StrT = None"
| "sample_check v StrT = Some TypeCheckError"
| "sample_check v ObjectT = None"
| "sample_check v BrokenT = Some (TypeError (Text ''isinstance() arg 2 must be a type''))"
| "sample_check v WeirdT = Some (OtherException ''RuntimeError'')"

definition pk :: "string \<Rightarrow> atom Parameter" where
  "pk n = \<lparr> param_name = n, param_kind = POSITIONAL_OR_KEYWORD, param_default = None \<rparr>"

text \<open>
  The bodies of the scenarios: \<^verbatim>\<open>return s\<close> for a string \<open>s\<close>, and the body
  \<^verbatim>\<open>r.overload(g_object); return "r"\<close> of a function that registers an overload on the
  handle \<^verbatim>\<open>r\<close> it is itself registered on.
\<close>

datatype code = Returns string | RegistersObject

text \<open>\<^verbatim>\<open>def f(a: int, b: str)\<close> and its overload \<^verbatim>\<open>def f(a: str, b: int)\<close>\<close>

definition f_first :: "(atom, pytype, code) callable" where
  "f_first = \<lparr> fn_name = ''f'', fn_parameters = [pk ''a'', pk ''b''],
       fn_type_hints = Inr [(''a'', Hint IntT), (''b'', Hint StrT)],
       fn_code = Returns ''first'' \<rparr>"

definition f_second :: "(atom, pytype, code) callable" where
  "f_second = \<lparr> fn_name = ''f'', fn_parameters = [pk ''a'', pk ''b''],
       fn_type_hints = Inr [(''a'', Hint StrT), (''b'', Hint IntT)],
       fn_code = Returns ''second'' \<rparr>"

definition f_only :: "(atom, pytype, code) OverloadFunction" where
  "f_only = projr (init f_first)"

definition f_handle :: "(atom, pytype, code) OverloadFunction" where
  "f_handle = snd (overload f_only f_second)"

text \<open>\<^verbatim>\<open>def g(x: int)\<close>, \<^verbatim>\<open>def g(x: object)\<close>, and \<^verbatim>\<open>def g(x: Weird)\<close>\<close>

definition g_int :: "(atom, pytype, code) callable" where
  "g_int = \<lparr> fn_name = ''g'', fn_parameters = [pk ''x''],
       fn_type_hints = Inr [(''x'', Hint IntT)], fn_code = Returns ''g_int'' \<rparr>"

definition g_object :: "(atom, pytype, code) callable" where
  "g_object = \<lparr> fn_name = ''g'', fn_parameters = [pk ''x''],
       fn_type_hints = Inr [(''x'', Hint ObjectT)], fn_code = Returns ''g_object'' \<rparr>"

fun sample_run :: "(atom, pytype, code) run" where
  "sample_run (Returns s) args kwargs self = (Inr (Atom (StrA s)), self)"
| "sample_run RegistersObject args kwargs self =
     (Inr (Atom (StrA ''r'')), snd (overload self g_object))"

text \<open>\<^verbatim>\<open>def r(x: int)\<close> with the registering body\<close>

definition r_registers :: "(atom, pytype, code) callable" where
  "r_registers = \<lparr> fn_name = ''r'', fn_parameters = [pk ''x''],
       fn_type_hints = Inr [(''x'', Hint IntT)], fn_code = RegistersObject \<rparr>"

definition r_handle :: "(atom, pytype, code) OverloadFunction" where
  "r_handle = projr (init r_registers)"

definition g_weird :: "(atom, pytype, code) callable" where
  "g_weird = \<lparr> fn_name = ''g'', fn_parameters = [pk ''x''],
       fn_type_hints = Inr [(''x'', Hint WeirdT)], fn_code = Returns ''g_weird'' \<rparr>"

definition g_handle :: "(atom, pytype, code) OverloadFunction" where
  "g_handle = snd (overload (projr (init g_int)) g_object)"

definition g_handle3 :: "(atom, pytype, code) OverloadFunction" where
  "g_handle3 = snd (overload g_handle g_weird)"

text \<open>\<^verbatim>\<open>def h(x: int = 0)\<close>\<close>

definition h_default :: "(atom, pytype, code) callable" where
  "h_default = \<lparr> fn_name = ''h'',
       fn_parameters = [\<lparr> param_name = ''x'', param_kind = POSITIONAL_OR_KEYWORD,
                          param_default = Some (Atom (IntA 0)) \<rparr>],
       fn_type_hints = Inr [(''x'', Hint IntT)], fn_code = Returns ''h'' \<rparr>"

definition h_handle :: "(atom, pytype, code) OverloadFunction" where
  "h_handle = projr (init h_default)"

text \<open>\<^verbatim>\<open>def u(x, y: int)\<close>: a parameter without annotation\<close>

definition u_plain :: "(atom, pytype, code) callable" where
  "u_plain = \<lparr> fn_name = ''u'', fn_parameters = [pk ''x'', pk ''y''],
       fn_type_hints = Inr [(''y'', Hint IntT)], fn_code = Returns ''u'' \<rparr>"

text \<open>\<^verbatim>\<open>def v(*args)\<close>\<close>

definition v_star :: "(atom, pytype, code) callable" where
  "v_star = \<lparr> fn_name = ''v'',
       fn_parameters = [\<lparr> param_name = ''args'', param_kind = VAR_POSITIONAL,
                          param_default = None \<rparr>],
       fn_type_hints = Inr [], fn_code = Returns ''v'' \<rparr>"

text \<open>
  \<^verbatim>\<open>def f(y: "Undefined", z)\<close>: the annotation names nothing in scope, so
  \<^verbatim>\<open>get_type_hints\<close> raises \<^verbatim>\<open>NameError\<close>.
\<close>

definition bad_forward :: "(atom, pytype, code) callable" where
  "bad_forward = \<lparr> fn_name = ''f'', fn_parameters = [pk ''y'', pk ''z''],
       fn_type_hints = Inl (NameError ''Undefined''), fn_code = Returns ''bad'' \<rparr>"

text \<open>\<^verbatim>\<open>def k(x: Broken)\<close> registered first, then \<^verbatim>\<open>def k(x: int)\<close>\<close>

definition k_broken :: "(atom, pytype, code) callable" where
  "k_broken = \<lparr> fn_name = ''k'', fn_parameters = [pk ''x''],
       fn_type_hints = Inr [(''x'', Hint BrokenT)], fn_code = Returns ''k_broken'' \<rparr>"

definition k_handle :: "(atom, pytype, code) OverloadFunction" where
  "k_handle = snd (overload (projr (init k_broken)) g_int)"

text \<open>\<^verbatim>\<open>def p(a: int)\<close> registered after \<^verbatim>\<open>def p(a: int, b: str)\<close>\<close>

definition p_one :: "(atom, pytype, code) callable" where
  "p_one = \<lparr> fn_name = ''p'', fn_parameters = [pk ''a''],
       fn_type_hints = Inr [(''a'', Hint IntT)], fn_code = Returns ''p_one'' \<rparr>"

definition p_handle :: "(atom, pytype, code) OverloadFunction" where
  "p_handle = snd (overload f_only p_one)"

lemmas scenario_defs =
  f_first_def f_second_def f_only_def f_handle_def g_int_def g_object_def g_weird_def
  g_handle_def g_handle3_def h_default_def h_handle_def u_plain_def v_star_def
  bad_forward_def k_broken_def k_handle_def p_one_def p_handle_def pk_def r_registers_def
  r_handle_def

lemmas dispatch_defs =
  call_def decide_def candidates_def init_def overload_def get_function_signature_def
  mk_param_info_def hint_get_def try_candidate_def bind_def check_argument_type_def
  survives_def skipped_def propagates_def

section \<open>Properties\<close>

subsection \<open>The outer loop\<close>

lemma match_loop_survives:
  "survives chk a k c \<Longrightarrow>
     match_loop chk a k (c # cs) acc = match_loop chk a k cs (acc @ [fst c])"
  by (simp add: survives_def)

lemma match_loop_skipped:
  "skipped chk a k c \<Longrightarrow> match_loop chk a k (c # cs) acc = match_loop chk a k cs acc"
  by (auto simp: skipped_def split: sum.splits exn.splits)

lemma match_loop_propagates:
  "propagates chk a k c \<Longrightarrow>
     match_loop chk a k (c # cs) acc = Inl (projl (try_candidate chk a k c))"
  by (auto simp: propagates_def split: sum.splits exn.splits)

lemma candidate_cases:
  "survives chk a k c \<or> skipped chk a k c \<or> propagates chk a k c"
  by (auto simp: survives_def skipped_def propagates_def split: sum.splits exn.splits)

lemma match_loop_skip_middle:
  "skipped chk a k c \<Longrightarrow>
     match_loop chk a k (pre @ c # post) acc = match_loop chk a k (pre @ post) acc"
proof (induction pre arbitrary: acc)
  case Nil
  then show ?case by (simp add: match_loop_skipped del: match_loop.simps)
next
  case (Cons p pre)
  from candidate_cases[of chk a k p] show ?case
  proof (elim disjE)
    assume "survives chk a k p"
    then show ?thesis using Cons by (simp add: match_loop_survives del: match_loop.simps)
  next
    assume "skipped chk a k p"
    then show ?thesis using Cons by (simp add: match_loop_skipped del: match_loop.simps)
  next
    assume "propagates chk a k p"
    then show ?thesis by (simp add: match_loop_propagates del: match_loop.simps)
  qed
qed

lemma match_loop_result:
  "match_loop chk a k cs acc = Inr ms \<Longrightarrow>
     ms = acc @ map fst (filter (survives chk a k) cs) \<and> (\<forall>c\<in>set cs. \<not> propagates chk a k c)"
proof (induction cs arbitrary: acc)
  case Nil
  then show ?case by simp
next
  case (Cons c cs)
  from candidate_cases[of chk a k c] show ?case
  proof (elim disjE)
    assume s: "survives chk a k c"
    then have "\<not> propagates chk a k c" by (simp add: survives_def propagates_def)
    moreover from s Cons.prems have "match_loop chk a k cs (acc @ [fst c]) = Inr ms"
      by (simp add: match_loop_survives del: match_loop.simps)
    from Cons.IH[OF this] have "ms = (acc @ [fst c]) @ map fst (filter (survives chk a k) cs)"
      and "\<forall>c\<in>set cs. \<not> propagates chk a k c" by simp_all
    ultimately show ?thesis using s by simp
  next
    assume s: "skipped chk a k c"
    then have "\<not> propagates chk a k c" "\<not> survives chk a k c"
      by (auto simp: survives_def propagates_def skipped_def split: sum.splits exn.splits)
    with s Cons show ?thesis by (simp add: match_loop_skipped del: match_loop.simps)
  next
    assume "propagates chk a k c"
    with Cons.prems show ?thesis by (simp add: match_loop_propagates del: match_loop.simps)
  qed
qed

lemma match_loop_complete:
  "\<forall>c\<in>set cs. \<not> propagates chk a k c \<Longrightarrow>
     match_loop chk a k cs acc = Inr (acc @ map fst (filter (survives chk a k) cs))"
proof (induction cs arbitrary: acc)
  case Nil
  then show ?case by simp
next
  case (Cons c cs)
  from candidate_cases[of chk a k c] show ?case
  proof (elim disjE)
    assume s: "survives chk a k c"
    with Cons show ?thesis by (simp add: match_loop_survives del: match_loop.simps)
  next
    assume s: "skipped chk a k c"
    then have "\<not> survives chk a k c"
      by (auto simp: survives_def skipped_def split: sum.splits exn.splits)
    with s Cons show ?thesis by (simp add: match_loop_skipped del: match_loop.simps)
  next
    assume "propagates chk a k c"
    with Cons.prems show ?thesis by simp
  qed
qed


lemma two_survivors:
  assumes "i < j" "j < length xs" "P (xs ! i)" "P (xs ! j)"
  shows "2 \<le> length (filter P xs)"
proof -
  have "{i, j} \<subseteq> {n. n < length xs \<and> P (xs ! n)}" using assms by auto
  then have "card {i, j} \<le> card {n. n < length xs \<and> P (xs ! n)}"
    by (intro card_mono) auto
  moreover have "card {i, j} = 2" using assms(1) by simp
  ultimately show ?thesis by (simp add: length_filter_conv_card)
qed

subsection \<open>Binding\<close>

lemma no_varargs_iff:
  "check_no_varargs ps = Inr () \<longleftrightarrow>
     (\<forall>p\<in>set ps. param_kind p \<noteq> VAR_POSITIONAL \<and> param_kind p \<noteq> VAR_KEYWORD)"
  by (induction ps) auto

lemma check_no_varargs_Inl:
  "check_no_varargs ps = Inl e \<longleftrightarrow>
     e = ValueError CannotDecorateVarArgs \<and>
     (\<exists>p\<in>set ps. param_kind p = VAR_POSITIONAL \<or> param_kind p = VAR_KEYWORD)"
  by (induction ps) auto

lemma bind_positional_TypeError:
  "bind_positional ps args kw acc = Inl e \<Longrightarrow> \<exists>m. e = TypeError m"
  by (induction ps args kw acc rule: bind_positional.induct) (auto split: if_splits)

lemma bind_keywords_TypeError:
  "bind_keywords ps kw acc kp = Inl e \<Longrightarrow> \<exists>m. e = TypeError m"
  by (induction ps kw acc kp rule: bind_keywords.induct) (auto split: if_splits option.splits)

lemma bind_TypeError: "bind ps args kw = Inl e \<Longrightarrow> \<exists>m. e = TypeError m"
  by (auto simp: bind_def split: sum.splits prod.splits if_splits option.splits
      dest: bind_positional_TypeError bind_keywords_TypeError)

lemma bind_positional_rest:
  "bind_positional ps args kw acc = Inr (acc', rest) \<Longrightarrow> set rest \<subseteq> set ps"
  by (induction ps args kw acc rule: bind_positional.induct) (auto split: if_splits)

lemma arity_mismatch_positional:
  "\<forall>p\<in>set ps. param_kind p \<noteq> VAR_POSITIONAL \<Longrightarrow>
   length (filter positional_capable ps) < length args \<Longrightarrow>
   \<exists>e. bind_positional ps args kw acc = Inl e"
proof (induction ps args kw acc rule: bind_positional.induct)
  case (4 param params arg_val arg_vals kwargs arguments)
  show ?case
  proof (cases "param_kind param")
    case POSITIONAL_ONLY
    with 4 show ?thesis by (auto simp: positional_capable_def)
  next
    case POSITIONAL_OR_KEYWORD
    with 4 show ?thesis by (auto simp: positional_capable_def)
  next
    case VAR_POSITIONAL
    with 4 show ?thesis by simp
  next
    case KEYWORD_ONLY
    then show ?thesis by simp
  next
    case VAR_KEYWORD
    then show ?thesis by simp
  qed
qed simp_all

lemma bind_keywords_leftover:
  "bind_keywords ps kw acc kp = Inr (acc', kw', kp') \<Longrightarrow>
   \<forall>p\<in>set ps. param_kind p \<noteq> VAR_KEYWORD \<Longrightarrow>
   kp' = kp \<and> (\<forall>k. map_of kw k \<noteq> None \<and> k \<notin> param_name ` set ps \<longrightarrow> map_of kw' k \<noteq> None)"
proof (induction ps kw acc kp rule: bind_keywords.induct)
  case (1 kwargs arguments kwargs_param)
  then show ?case by simp
next
  case (2 param params kwargs arguments kwargs_param)
  then show ?case
    by (auto split: if_splits option.splits simp: AList.delete_conv')
qed

lemma missing_positional:
  "length args \<le> length pre \<Longrightarrow> param_default p = None \<Longrightarrow>
   param_kind p \<noteq> VAR_POSITIONAL \<Longrightarrow> param_kind p \<noteq> VAR_KEYWORD \<Longrightarrow>
   map_of kw (param_name p) = None \<Longrightarrow>
   (\<exists>e. bind_positional (pre @ p # post) args kw acc = Inl e) \<or>
   (\<exists>acc' rest. bind_positional (pre @ p # post) args kw acc = Inr (acc', rest) \<and> p \<in> set rest)"
proof (induction pre arbitrary: args acc)
  case Nil
  then show ?case by simp
next
  case (Cons q pre)
  show ?case
  proof (cases args)
    case Nil
    then show ?thesis by auto
  next
    case (Cons a as)
    with Cons.prems have "length as \<le> length pre" by simp
    from Cons.IH[OF this Cons.prems(2-5)] show ?thesis using Cons by auto
  qed
qed

lemma missing_keywords:
  "p \<in> set ps \<Longrightarrow> param_default p = None \<Longrightarrow>
   param_kind p \<noteq> VAR_POSITIONAL \<Longrightarrow> param_kind p \<noteq> VAR_KEYWORD \<Longrightarrow>
   map_of kw (param_name p) = None \<Longrightarrow>
   \<exists>e. bind_keywords ps kw acc kp = Inl e"
proof (induction ps kw acc kp rule: bind_keywords.induct)
  case (1 kwargs arguments kwargs_param)
  then show ?case by simp
next
  case (2 param params kwargs arguments kwargs_param)
  then show ?case
    by (auto split: option.splits simp: AList.delete_conv')
qed

lemma arity_mismatch_fails:
  assumes "check_no_varargs ps = Inr ()" and "arity_mismatch ps args"
  shows "\<exists>e. bind ps args kw = Inl e"
proof -
  from assms(1) have "\<forall>p\<in>set ps. param_kind p \<noteq> VAR_POSITIONAL"
    by (simp add: no_varargs_iff)
  from arity_mismatch_positional[OF this, of args kw "[]"] assms(2)
  show ?thesis by (auto simp: bind_def arity_mismatch_def)
qed

lemma unknown_keyword_fails:
  assumes "check_no_varargs ps = Inr ()" and "unknown_keyword ps kw"
  shows "\<exists>e. bind ps args kw = Inl e"
proof (cases "bind_positional ps args kw []")
  case (Inl e)
  then show ?thesis by (simp add: bind_def)
next
  case (Inr r)
  obtain acc' rest where r: "r = (acc', rest)" by (cases r)
  from Inr r bind_positional_rest have sub: "set rest \<subseteq> set ps" by fastforce
  with assms(1) have nk: "\<forall>p\<in>set rest. param_kind p \<noteq> VAR_KEYWORD"
    by (auto simp: no_varargs_iff)
  from assms(2) obtain k where k: "map_of kw k \<noteq> None" "k \<notin> param_name ` set ps"
    by (auto simp: unknown_keyword_def list_ex_iff map_of_eq_None_iff)
  show ?thesis
  proof (cases "bind_keywords rest kw acc' None")
    case (Inl e)
    then show ?thesis using Inr r by (simp add: bind_def)
  next
    case (Inr r2)
    obtain a2 kw' kp' where r2: "r2 = (a2, kw', kp')" by (cases r2)
    from k(2) sub have "k \<notin> param_name ` set rest" by auto
    with bind_keywords_leftover[OF Inr[unfolded r2] nk] k(1)
    have "kp' = None" "map_of kw' k \<noteq> None" by blast+
    then have "kw' \<noteq> []" by auto
    with \<open>kp' = None\<close> Inr r2 \<open>bind_positional ps args kw [] = Inr r\<close> r
    show ?thesis by (simp add: bind_def)
  qed
qed

lemma missing_required_fails:
  assumes "check_no_varargs ps = Inr ()" and "missing_required ps args kw"
  shows "\<exists>e. bind ps args kw = Inl e"
proof -
  from assms(2) obtain p where p: "p \<in> set (drop (length args) ps)"
    "param_default p = None" "map_of kw (param_name p) = None"
    by (auto simp: missing_required_def list_ex_iff)
  from p(1) obtain d1 d2 where d: "drop (length args) ps = d1 @ p # d2"
    by (auto simp: in_set_conv_decomp)
  have la: "length args \<le> length ps" using p(1) by (cases "length args \<le> length ps") auto
  have ps: "ps = (take (length args) ps @ d1) @ p # d2"
    using d by (metis append.assoc append_take_drop_id)
  have len: "length args \<le> length (take (length args) ps @ d1)" using la by simp
  from p(1) have "p \<in> set ps" by (meson in_set_dropD)
  with assms(1) have k: "param_kind p \<noteq> VAR_POSITIONAL" "param_kind p \<noteq> VAR_KEYWORD"
    by (auto simp: no_varargs_iff)
  from missing_positional[OF len p(2) k p(3), of d2 "[]"] ps
  consider (a) e where "bind_positional ps args kw [] = Inl e"
    | (b) acc' rest where "bind_positional ps args kw [] = Inr (acc', rest)" "p \<in> set rest"
    by metis
  then show ?thesis
  proof cases
    case a
    then show ?thesis by (simp add: bind_def)
  next
    case b
    from missing_keywords[OF b(2) p(2) k p(3), of acc' None] b(1)
    show ?thesis by (auto simp: bind_def)
  qed
qed

lemma apply_defaults_keys:
  "map_of (apply_defaults ps ba) n \<noteq> None \<Longrightarrow> n \<in> param_name ` set ps"
  by (induction ps) (auto split: option.splits if_splits)

lemma apply_defaults_lookup:
  "distinct (map param_name ps) \<Longrightarrow> p \<in> set ps \<Longrightarrow> param_default p = Some d \<Longrightarrow>
   map_of (apply_defaults ps ba) (param_name p) =
     Some (case map_of ba (param_name p) of None \<Rightarrow> d | Some v \<Rightarrow> v)"
proof (induction ps)
  case Nil
  then show ?case by simp
next
  case (Cons q ps)
  show ?case
  proof (cases "q = p")
    case True
    with Cons.prems show ?thesis by (simp split: option.splits)
  next
    case False
    with Cons.prems have "p \<in> set ps" "param_name q \<noteq> param_name p" by auto
    with Cons show ?thesis by (simp split: option.splits)
  qed
qed

lemma check_parameters_True:
  "check_parameters chk arguments infos = Inr True \<Longrightarrow> pi \<in> set infos \<Longrightarrow>
   info_annotation pi = Hint t \<Longrightarrow> map_of arguments (info_name pi) = Some v \<Longrightarrow>
   chk v t = None"
proof (induction infos)
  case Nil
  then show ?case by simp
next
  case (Cons q infos)
  show ?case
  proof (cases "q = pi")
    case True
    with Cons.prems show ?thesis
      by (auto simp: check_argument_type_def split: sum.splits bool.splits option.splits exn.splits)
  next
    case False
    with Cons.prems have "pi \<in> set infos" by simp
    moreover from Cons.prems(1) have "check_parameters chk arguments infos = Inr True"
      by (auto split: option.splits annotation.splits sum.splits bool.splits)
    ultimately show ?thesis using Cons.IH Cons.prems by simp
  qed
qed

lemma bind_positional_keys:
  "bind_positional ps args kw acc = Inr (acc', rest) \<Longrightarrow> map_of acc' n \<noteq> None \<Longrightarrow>
   map_of acc n \<noteq> None \<or> n \<in> param_name ` set (take (length args) ps)"
proof (induction ps args kw acc rule: bind_positional.induct)
  case (4 param params arg_val arg_vals kwargs arguments)
  then show ?case by (auto split: if_splits simp: update_conv')
qed (auto split: if_splits)

lemma bind_keywords_keys:
  "bind_keywords ps kw acc kp = Inr (acc', kw', kp') \<Longrightarrow> map_of acc' n \<noteq> None \<Longrightarrow>
   map_of acc n \<noteq> None \<or> map_of kw n \<noteq> None"
proof (induction ps kw acc kp rule: bind_keywords.induct)
  case (2 param params kwargs arguments kwargs_param)
  then show ?case
    by (auto split: if_splits option.splits simp: update_conv' AList.delete_conv')
qed simp

lemma bind_keywords_no_kwargs_param:
  "bind_keywords ps kw acc kp = Inr (acc', kw', kp') \<Longrightarrow>
   \<forall>p\<in>set ps. param_kind p \<noteq> VAR_KEYWORD \<Longrightarrow> kp' = kp"
  using bind_keywords_leftover by blast

lemma bind_omitted:
  assumes "check_no_varargs ps = Inr ()" and "bind ps args kw = Inr ba"
    and "n \<notin> param_name ` set (take (length args) ps)" and "map_of kw n = None"
  shows "map_of ba n = None"
proof -
  from assms(2) obtain acc rest acc' kw' kp' where
    a: "bind_positional ps args kw [] = Inr (acc, rest)"
    and b: "bind_keywords rest kw acc None = Inr (acc', kw', kp')"
    by (auto simp: bind_def split: sum.splits prod.splits)
  from bind_positional_rest[OF a] assms(1)
  have "\<forall>p\<in>set rest. param_kind p \<noteq> VAR_KEYWORD" by (auto simp: no_varargs_iff)
  from bind_keywords_no_kwargs_param[OF b this] have "kp' = None" .
  with assms(2) a b have ba: "ba = acc'" by (auto simp: bind_def split: if_splits)
  from bind_positional_keys[OF a, of n] assms(3) have "map_of acc n = None" by auto
  with bind_keywords_keys[OF b, of n] assms(4) show ?thesis unfolding ba by fastforce
qed

subsection \<open>The inner loop\<close>

lemma check_parameters_skip_Any:
  "info_annotation pi = Any \<Longrightarrow>
   check_parameters chk arguments (pre @ pi # post) = check_parameters chk arguments (pre @ post)"
  by (induction pre) (auto split: option.splits annotation.splits sum.splits bool.splits)

lemma check_parameters_append:
  "check_parameters chk arguments (xs @ ys) =
     (case check_parameters chk arguments xs of
        Inr True \<Rightarrow> check_parameters chk arguments ys
      | r \<Rightarrow> r)"
  by (induction xs) (auto split: option.splits annotation.splits sum.splits bool.splits)

lemma check_parameters_False:
  "check_parameters chk arguments infos = Inr False \<Longrightarrow>
   \<exists>pi\<in>set infos. \<exists>t v. info_annotation pi = Hint t
      \<and> map_of arguments (info_name pi) = Some v \<and> chk v t = Some TypeCheckError"
proof (induction infos)
  case Nil
  then show ?case by simp
next
  case (Cons q infos)
  show ?case
  proof (cases "check_parameters chk arguments [q]")
    case (Inl e)
    with Cons.prems show ?thesis
      using check_parameters_append[of chk arguments "[q]" infos] by simp
  next
    case (Inr b)
    show ?thesis
    proof (cases b)
      case True
      with Inr Cons.prems have "check_parameters chk arguments infos = Inr False"
        using check_parameters_append[of chk arguments "[q]" infos] by simp
      with Cons.IH show ?thesis by auto
    next
      case False
      with Inr have "\<exists>t v. info_annotation q = Hint t
          \<and> map_of arguments (info_name q) = Some v \<and> chk v t = Some TypeCheckError"
        by (auto simp: check_argument_type_def
            split: option.splits annotation.splits sum.splits bool.splits exn.splits)
      then show ?thesis by auto
    qed
  qed
qed

subsection \<open>Registration\<close>

lemma has_varargs_check:
  "has_varargs ps \<longleftrightarrow> check_no_varargs ps = Inl (ValueError CannotDecorateVarArgs)"
  by (induction ps) (auto simp: has_varargs_def)

lemma no_varargs_check: "\<not> has_varargs ps \<longleftrightarrow> check_no_varargs ps = Inr ()"
  by (induction ps) (auto simp: has_varargs_def)

lemma signature_kinds:
  "get_function_signature f = Inr sg \<Longrightarrow>
   map info_kind (parameters sg) = map param_kind (fn_parameters f)"
  by (auto simp: get_function_signature_def mk_param_info_def split: sum.splits)

lemma signature_no_varargs:
  assumes "get_function_signature f = Inr sg" and "\<not> has_varargs (fn_parameters f)"
  shows "list_all (\<lambda>k. k \<noteq> VAR_POSITIONAL \<and> k \<noteq> VAR_KEYWORD) (map info_kind (parameters sg))"
  using assms(2) unfolding signature_kinds[OF assms(1)]
  by (auto simp: has_varargs_def list_all_iff list_ex_iff)

lemma init_no_varargs: "init f = Inr self \<Longrightarrow> no_varargs_inside self"
  by (auto simp: init_def no_varargs_inside_def no_varargs_check signature_no_varargs
      split: sum.splits)

lemma overload_no_varargs:
  "no_varargs_inside self \<Longrightarrow> no_varargs_inside (snd (overload self f))"
  by (auto simp: overload_def no_varargs_inside_def no_varargs_check signature_no_varargs Let_def
      split: sum.splits)

lemma register_all_no_varargs:
  "no_varargs_inside self \<Longrightarrow> no_varargs_inside (register_all self gs)"
  unfolding register_all_def
  by (induction gs arbitrary: self) (simp_all add: overload_no_varargs)

lemma reachable_no_varargs: "reachable self \<Longrightarrow> no_varargs_inside self"
  by (induction rule: reachable.induct)
     (simp_all add: init_no_varargs overload_no_varargs register_all_no_varargs)

lemma overload_extraction_failure:
  "check_no_varargs (fn_parameters func) = Inr () \<Longrightarrow> fn_type_hints func = Inl e \<Longrightarrow>
   overload self func = (Inl e, self\<lparr> func_list := func_list self @ [func] \<rparr>)"
  by (simp add: overload_def get_function_signature_def)

lemma skipped_call:
  assumes "skipped chk args kwargs c" and "candidates self = pre @ c # post"
  shows "call run chk self args kwargs
           = decide run self args kwargs (match_loop chk args kwargs (pre @ post) [])"
  using match_loop_skip_middle[OF assms(1), of pre post "[]"] assms(2)
  by (simp add: call_def)

lemma skipped_call_outcome:
  assumes "skipped chk args kwargs c"
    and "candidates self = pre @ c # post" and "candidates self' = pre @ post"
    and "\<forall>code. fst (run code args kwargs self) = fst (run code args kwargs self')"
  shows "fst (call run chk self args kwargs) = fst (call run chk self' args kwargs)"
  using match_loop_skip_middle[OF assms(1), of pre post "[]"] assms(2,3,4)
  by (simp add: call_def decide_def split: sum.splits)




section \<open>The claims\<close>

subsection \<open>C1: the decision rule\<close>

lemma scenario_f:
  "fst (call sample_run sample_check f_handle [Atom (IntA 1), Atom (StrA ''2'')] []) = Inr (Atom (StrA ''first''))"
  "fst (call sample_run sample_check f_handle [Atom (StrA ''1''), Atom (IntA 2)] []) = Inr (Atom (StrA ''second''))"
  "fst (call sample_run sample_check f_handle [Atom (IntA 1), Atom (IntA 2)] [])
     = Inl (TypeError (NoMatchingFunction [Atom (IntA 1), Atom (IntA 2)] []))"
  "fst (call sample_run sample_check f_handle [Atom (StrA ''1''), Atom (StrA ''2'')] [])
     = Inl (TypeError (NoMatchingFunction [Atom (StrA ''1''), Atom (StrA ''2'')] []))"
  by (simp_all add: scenario_defs dispatch_defs)

text \<open>
  C1. Whenever the survivor set is computed, that is, no candidate's block raises an
  exception that leaves the loop, the call is decided by the candidates that bind and
  type-check, in registration order: with none of them the call raises \<^verbatim>\<open>TypeError\<close>
  with the no-match message, which carries \<open>args\<close> and \<open>kwargs\<close>; with exactly one, the
  call is the execution of that function's body on the original \<open>args\<close> and \<open>kwargs\<close>,
  its result or its exception as it is; with two or more the call raises
  \<^verbatim>\<open>TypeError\<close> with the multiple-match message, which carries \<open>args\<close> and \<open>kwargs\<close>.
  The spec's \<^verbatim>\<open>NoMatchError\<close> and \<^verbatim>\<open>AmbiguousMatchError\<close> are these two
  \<^verbatim>\<open>TypeError\<close>s.
\<close>

theorem call_decision:
  assumes "\<forall>c\<in>set (candidates self). \<not> propagates check_type args kwargs c"
  shows "call run check_type self args kwargs =
           (case filter (survives check_type args kwargs) (candidates self) of
              [] \<Rightarrow> (Inl (TypeError (NoMatchingFunction args kwargs)), self)
            | [c] \<Rightarrow> run (fn_code (fst c)) args kwargs self
            | c # c' # cs \<Rightarrow> (Inl (TypeError (MultipleFunctionsMatched args kwargs)), self))"
  using match_loop_complete[OF assms, of "[]"]
  by (simp add: call_def decide_def split: list.splits)

theorem call_decision_witness:
  "length (candidates f_handle) = 2
   \<and> \<not> propagates sample_check [Atom (IntA 1), Atom (StrA ''2'')] [] (candidates f_handle ! 0)
   \<and> \<not> propagates sample_check [Atom (IntA 1), Atom (StrA ''2'')] [] (candidates f_handle ! 1)
   \<and> call sample_run sample_check f_handle [Atom (IntA 1), Atom (StrA ''2'')] []
       = sample_run (fn_code f_first) [Atom (IntA 1), Atom (StrA ''2'')] [] f_handle
   \<and> sample_run (fn_code f_first) [Atom (IntA 1), Atom (StrA ''2'')] [] f_handle
       = (Inr (Atom (StrA ''first'')), f_handle)"
proof -
  have h: "\<forall>c\<in>set (candidates f_handle).
       \<not> propagates sample_check [Atom (IntA 1), Atom (StrA ''2'')] [] c"
    by (simp add: scenario_defs dispatch_defs)
  show ?thesis
    using h call_decision[OF h, of sample_run] by (simp add: scenario_defs dispatch_defs)
qed

subsection \<open>C2: ambiguity\<close>

text \<open>
  C2 as stated fails: with \<^verbatim>\<open>g(x: int)\<close>, \<^verbatim>\<open>g(x: object)\<close> and \<^verbatim>\<open>g(x: Weird)\<close>
  registered, the first two candidates bind and type-check \<^verbatim>\<open>g(1)\<close>, and the call ends
  with the \<^verbatim>\<open>RuntimeError\<close> that the third candidate's check raises: neither handler of
  the source names it.
\<close>

theorem ambiguous_match_counterexample:
  "survives sample_check [Atom (IntA 1)] [] (candidates g_handle3 ! 0)
   \<and> survives sample_check [Atom (IntA 1)] [] (candidates g_handle3 ! 1)
   \<and> fst (call sample_run sample_check g_handle3 [Atom (IntA 1)] []) = Inl (OtherException ''RuntimeError'')"
  by (simp add: scenario_defs dispatch_defs)

text \<open>
  C2, amended. For every call on which no candidate's block raises an exception other
  than \<^verbatim>\<open>TypeError\<close> (the type check's own \<^verbatim>\<open>TypeCheckError\<close> never leaves the
  predicate): when the candidates at two different positions \<open>i < j\<close> both bind and
  type-check, the call raises the multiple-match \<^verbatim>\<open>TypeError\<close>.  Nothing is asked of the
  two positions, which may be adjacent or hold the same function twice, and no candidate
  is invoked.
\<close>

theorem ambiguous_match:
  assumes "\<forall>c\<in>set (candidates self). \<not> propagates check_type args kwargs c"
    and "i < j" and "j < length (candidates self)"
    and "survives check_type args kwargs (candidates self ! i)"
    and "survives check_type args kwargs (candidates self ! j)"
  shows "call run check_type self args kwargs =
           (Inl (TypeError (MultipleFunctionsMatched args kwargs)), self)"
proof -
  have "2 \<le> length (filter (survives check_type args kwargs) (candidates self))"
    using assms(2-5) by (rule two_survivors)
  then show ?thesis
    using match_loop_complete[OF assms(1), of "[]"] by (auto simp: call_def decide_def)
qed

theorem ambiguous_match_witness:
  "length (candidates g_handle) = 2
   \<and> \<not> propagates sample_check [Atom (IntA 1)] [] (candidates g_handle ! 0)
   \<and> \<not> propagates sample_check [Atom (IntA 1)] [] (candidates g_handle ! 1)
   \<and> survives sample_check [Atom (IntA 1)] [] (candidates g_handle ! 0)
   \<and> survives sample_check [Atom (IntA 1)] [] (candidates g_handle ! 1)
   \<and> call sample_run sample_check g_handle [Atom (IntA 1)] []
       = (Inl (TypeError (MultipleFunctionsMatched [Atom (IntA 1)] [])), g_handle)"
proof -
  have h: "\<forall>c\<in>set (candidates g_handle). \<not> propagates sample_check [Atom (IntA 1)] [] c"
    by (simp add: scenario_defs dispatch_defs)
  have l: "1 < length (candidates g_handle)"
    by (simp add: scenario_defs dispatch_defs)
  have s0: "survives sample_check [Atom (IntA 1)] [] (candidates g_handle ! 0)"
    by (simp add: scenario_defs dispatch_defs)
  have s1: "survives sample_check [Atom (IntA 1)] [] (candidates g_handle ! 1)"
    by (simp add: scenario_defs dispatch_defs)
  have "call sample_run sample_check g_handle [Atom (IntA 1)] []
       = (Inl (TypeError (MultipleFunctionsMatched [Atom (IntA 1)] [])), g_handle)"
    using h _ l s0 s1 by (rule ambiguous_match) simp
  moreover have "length (candidates g_handle) = 2"
    "\<not> propagates sample_check [Atom (IntA 1)] [] (candidates g_handle ! 0)"
    "\<not> propagates sample_check [Atom (IntA 1)] [] (candidates g_handle ! 1)"
    by (simp_all add: scenario_defs dispatch_defs)
  ultimately show ?thesis using s0 s1 by simp
qed


subsection \<open>C9: what a call does to the handle\<close>




subsection \<open>C8: the same call twice\<close>




subsection \<open>C3: functions with variadic parameters are rejected\<close>

text \<open>
  C3. A function with a \<^verbatim>\<open>*args\<close> or \<^verbatim>\<open>**kwargs\<close> parameter is refused by both entry
  points: \<^verbatim>\<open>__init__\<close> raises the \<^verbatim>\<open>ValueError\<close> and yields no handle, \<^verbatim>\<open>overload\<close>
  raises it and leaves the handle as it was.  Hence on every handle that the interface
  can produce, no function of \<open>func_list\<close> and no descriptor of \<open>signatures\<close> has a
  variadic parameter.  The spec's \<^verbatim>\<open>InvalidOverloadError\<close> is this \<^verbatim>\<open>ValueError\<close>.
\<close>

theorem varargs_rejected:
  "(has_varargs (fn_parameters func) \<longrightarrow>
      init func = Inl (ValueError CannotDecorateVarArgs)
      \<and> overload self func = (Inl (ValueError CannotDecorateVarArgs), self))
   \<and> (reachable self \<longrightarrow> no_varargs_inside self)"
  by (auto simp: init_def overload_def has_varargs_check reachable_no_varargs)

theorem varargs_rejected_witness:
  "has_varargs (fn_parameters v_star)
   \<and> init v_star = Inl (ValueError CannotDecorateVarArgs)
   \<and> overload f_handle v_star = (Inl (ValueError CannotDecorateVarArgs), f_handle)
   \<and> reachable f_handle
   \<and> no_varargs_inside f_handle"
proof -
  have v: "has_varargs (fn_parameters v_star)"
    by (simp add: v_star_def has_varargs_def)
  have "init f_first = Inr f_only"
    by (simp add: scenario_defs dispatch_defs)
  then have "reachable f_only" by (rule reach_init)
  then have r: "reachable f_handle" unfolding f_handle_def by (rule reach_overload)
  from v r varargs_rejected[of v_star f_handle] show ?thesis by simp
qed

subsection \<open>C4: a registration that fails in extraction\<close>

text \<open>
  C4. The claim does not hold for \<^verbatim>\<open>overload\<close>.  On the handle of \<^verbatim>\<open>f(a: int, b: str)\<close>,
  registering a function whose annotation cannot be resolved raises the \<^verbatim>\<open>NameError\<close>
  at the call site, and the function stays in \<open>func_list\<close>, which then has two members
  against one descriptor in \<open>signatures\<close>.
\<close>

theorem failed_overload_keeps_function:
  "init f_first = Inr f_only
   \<and> fst (overload f_only bad_forward) = Inl (NameError ''Undefined'')
   \<and> func_list (snd (overload f_only bad_forward)) = [f_first, bad_forward]
   \<and> length (func_list f_only) = 1
   \<and> length (signatures f_only) = 1
   \<and> length (signatures (snd (overload f_only bad_forward))) = 1"
  by (simp add: scenario_defs dispatch_defs)

text \<open>
  What follows from it: the next registration, of \<^verbatim>\<open>p(a: int)\<close>, succeeds, and the loop
  then pairs the rejected function with the descriptor of \<^verbatim>\<open>p\<close> and never visits \<^verbatim>\<open>p\<close>
  itself, so \<^verbatim>\<open>p(1)\<close> finds no match.
\<close>

lemma failed_overload_misaligns:
  "fst (overload (snd (overload f_only bad_forward)) p_one) = Inr ()"
  "map fst (candidates (snd (overload (snd (overload f_only bad_forward)) p_one)))
     = [f_first, bad_forward]"
  "map (sig_name \<circ> snd) (candidates (snd (overload (snd (overload f_only bad_forward)) p_one)))
     = [''f'', ''p'']"
  "fst (call sample_run sample_check (snd (overload (snd (overload f_only bad_forward)) p_one))
          [Atom (IntA 1)] [])
     = Inl (TypeError (NoMatchingFunction [Atom (IntA 1)] []))"
  "fst (call sample_run sample_check p_handle [Atom (IntA 1)] []) = Inr (Atom (StrA ''p_one''))"
  by (simp_all add: scenario_defs dispatch_defs)

subsection \<open>C5: a binding failure eliminates the candidate\<close>

text \<open>
  C5. For a candidate without variadic parameters, more positional arguments than
  positional-capable parameters, a keyword that names no parameter, and a required
  parameter left without value each make the binding raise \<^verbatim>\<open>TypeError\<close>.  Whenever
  the binding of a candidate raises, the loop passes over that candidate only: it goes on
  exactly as on the list without it, with the same accumulated matches, and the call is
  decided by the loop over the list without it, so that its outcome is the outcome on a
  handle without that candidate (for bodies whose outcome does not depend on which of
  the two handles they run on).
\<close>

theorem binding_failure_eliminates:
  "(check_no_varargs (fn_parameters (fst c)) = Inr ()
      \<and> (arity_mismatch (fn_parameters (fst c)) args
          \<or> unknown_keyword (fn_parameters (fst c)) kwargs
          \<or> missing_required (fn_parameters (fst c)) args kwargs)
      \<longrightarrow> (\<exists>m. bind (fn_parameters (fst c)) args kwargs = Inl (TypeError m)))
   \<and> ((\<exists>e. bind (fn_parameters (fst c)) args kwargs = Inl e) \<longrightarrow>
        \<not> survives check_type args kwargs c
        \<and> \<not> propagates check_type args kwargs c
        \<and> match_loop check_type args kwargs (pre @ c # post) acc
            = match_loop check_type args kwargs (pre @ post) acc
        \<and> (\<forall>self. candidates self = pre @ c # post
              \<longrightarrow> call run check_type self args kwargs
                    = decide run self args kwargs
                        (match_loop check_type args kwargs (pre @ post) []))
        \<and> (\<forall>self self'. candidates self = pre @ c # post \<and> candidates self' = pre @ post
                \<and> (\<forall>code. fst (run code args kwargs self) = fst (run code args kwargs self'))
              \<longrightarrow> fst (call run check_type self args kwargs) = fst (call run check_type self' args kwargs)))"
proof (intro conjI impI)
  assume a: "check_no_varargs (fn_parameters (fst c)) = Inr ()
      \<and> (arity_mismatch (fn_parameters (fst c)) args
          \<or> unknown_keyword (fn_parameters (fst c)) kwargs
          \<or> missing_required (fn_parameters (fst c)) args kwargs)"
  then have "\<exists>e. bind (fn_parameters (fst c)) args kwargs = Inl e"
    using arity_mismatch_fails unknown_keyword_fails missing_required_fails by blast
  then show "\<exists>m. bind (fn_parameters (fst c)) args kwargs = Inl (TypeError m)"
    using bind_TypeError by blast
next
  assume "\<exists>e. bind (fn_parameters (fst c)) args kwargs = Inl e"
  then obtain m where "bind (fn_parameters (fst c)) args kwargs = Inl (TypeError m)"
    using bind_TypeError by blast
  then have t: "try_candidate check_type args kwargs c = Inl (TypeError m)"
    by (simp add: try_candidate_def)
  then have s: "skipped check_type args kwargs c" by (simp add: skipped_def)
  from t show "\<not> survives check_type args kwargs c" by (simp add: survives_def)
  from t show "\<not> propagates check_type args kwargs c" by (simp add: propagates_def)
  from s show "match_loop check_type args kwargs (pre @ c # post) acc
            = match_loop check_type args kwargs (pre @ post) acc"
    by (rule match_loop_skip_middle)
  from s show "\<forall>self. candidates self = pre @ c # post
              \<longrightarrow> call run check_type self args kwargs
                    = decide run self args kwargs
                        (match_loop check_type args kwargs (pre @ post) [])"
    using skipped_call by blast
  from s show "\<forall>self self'. candidates self = pre @ c # post \<and> candidates self' = pre @ post
                \<and> (\<forall>code. fst (run code args kwargs self) = fst (run code args kwargs self'))
              \<longrightarrow> fst (call run check_type self args kwargs) = fst (call run check_type self' args kwargs)"
    using skipped_call_outcome[of check_type args kwargs c _ pre post _ run] by blast
qed

text \<open>
  \<^verbatim>\<open>p(a: int, b: str)\<close> and \<^verbatim>\<open>p(a: int)\<close> called as \<^verbatim>\<open>p(1)\<close>: the first candidate misses
  \<^verbatim>\<open>b\<close>, and the call is the call of the second.
\<close>

theorem binding_failure_eliminates_witness:
  "check_no_varargs (fn_parameters f_first) = Inr ()
   \<and> missing_required (fn_parameters f_first) [Atom (IntA 1)] []
   \<and> fst (hd (candidates p_handle)) = f_first
   \<and> isl (bind (fn_parameters f_first) [Atom (IntA 1)] [])
   \<and> \<not> survives sample_check [Atom (IntA 1)] [] (hd (candidates p_handle))
   \<and> \<not> propagates sample_check [Atom (IntA 1)] [] (hd (candidates p_handle))
   \<and> fst (call sample_run sample_check p_handle [Atom (IntA 1)] []) = Inr (Atom (StrA ''p_one''))"
proof -
  let ?c = "hd (candidates p_handle)"
  have f: "fst ?c = f_first" by (simp add: scenario_defs dispatch_defs)
  have n: "check_no_varargs (fn_parameters f_first) = Inr ()"
    by (simp add: scenario_defs)
  have m: "missing_required (fn_parameters f_first) [Atom (IntA 1)] []"
    by (simp add: scenario_defs missing_required_def)
  note t = binding_failure_eliminates[of ?c "[Atom (IntA 1)]" "[]" sample_check "[]" "[]" "[]",
      unfolded f]
  from t n m have b: "\<exists>m. bind (fn_parameters f_first) [Atom (IntA 1)] [] = Inl (TypeError m)"
    by blast
  then have e: "\<exists>e. bind (fn_parameters f_first) [Atom (IntA 1)] [] = Inl e" by blast
  from t e have "\<not> survives sample_check [Atom (IntA 1)] [] ?c"
    and "\<not> propagates sample_check [Atom (IntA 1)] [] ?c" by blast+
  moreover from b have "isl (bind (fn_parameters f_first) [Atom (IntA 1)] [])" by auto
  moreover have "fst (call sample_run sample_check p_handle [Atom (IntA 1)] []) = Inr (Atom (StrA ''p_one''))"
    by (simp add: scenario_defs dispatch_defs)
  ultimately show ?thesis using n m f by simp
qed

subsection \<open>C6: a parameter without annotation\<close>

text \<open>
  C6. Extraction gives a parameter that has no entry in the type hints the annotation
  \<^verbatim>\<open>Any\<close>.  A parameter whose annotation is \<^verbatim>\<open>Any\<close> has no effect on the type check of
  a candidate: the inner loop, and with it the candidate's block, ends the same way with
  and without that parameter in the descriptor, for every checker and all bound
  arguments.  And when the type check eliminates a candidate, some parameter with an
  annotation other than \<^verbatim>\<open>Any\<close> holds a value that the checker rejected.
\<close>

theorem unconstrained_is_universal:
  "(fn_type_hints f = Inr hints \<and> i < length (fn_parameters f)
      \<and> map_of hints (param_name (fn_parameters f ! i)) = None
      \<longrightarrow> (\<exists>sg. get_function_signature f = Inr sg
            \<and> info_name (parameters sg ! i) = param_name (fn_parameters f ! i)
            \<and> info_annotation (parameters sg ! i) = Any))
   \<and> (info_annotation pi = Any \<longrightarrow>
        check_parameters check_type arguments (before @ pi # after)
          = check_parameters check_type arguments (before @ after)
        \<and> try_candidate check_type args kwargs (g, sg'\<lparr> parameters := before @ pi # after \<rparr>)
          = try_candidate check_type args kwargs (g, sg'\<lparr> parameters := before @ after \<rparr>))
   \<and> (check_parameters check_type arguments infos = Inr False \<longrightarrow>
        (\<exists>q\<in>set infos. \<exists>t v. info_annotation q = Hint t
            \<and> map_of arguments (info_name q) = Some v
            \<and> check_type v t = Some TypeCheckError))"
proof (intro conjI impI)
  assume "fn_type_hints f = Inr hints \<and> i < length (fn_parameters f)
      \<and> map_of hints (param_name (fn_parameters f ! i)) = None"
  then show "\<exists>sg. get_function_signature f = Inr sg
            \<and> info_name (parameters sg ! i) = param_name (fn_parameters f ! i)
            \<and> info_annotation (parameters sg ! i) = Any"
    by (simp add: get_function_signature_def mk_param_info_def hint_get_def)
next
  assume a: "info_annotation pi = Any"
  then show "check_parameters check_type arguments (before @ pi # after)
          = check_parameters check_type arguments (before @ after)"
    by (rule check_parameters_skip_Any)
  from a show "try_candidate check_type args kwargs (g, sg'\<lparr> parameters := before @ pi # after \<rparr>)
          = try_candidate check_type args kwargs (g, sg'\<lparr> parameters := before @ after \<rparr>)"
    by (simp add: try_candidate_def check_parameters_skip_Any split: sum.splits)
next
  assume "check_parameters check_type arguments infos = Inr False"
  then show "\<exists>q\<in>set infos. \<exists>t v. info_annotation q = Hint t
            \<and> map_of arguments (info_name q) = Some v
            \<and> check_type v t = Some TypeCheckError"
    by (rule check_parameters_False)
qed

text \<open>
  \<^verbatim>\<open>u(x, y: int)\<close>: \<^verbatim>\<open>x\<close> is extracted as \<^verbatim>\<open>Any\<close>, and \<^verbatim>\<open>u({}, 3)\<close> is dispatched
  whatever the first argument is.
\<close>

theorem unconstrained_is_universal_witness:
  "fn_type_hints u_plain = Inr [(''y'', Hint IntT)]
   \<and> (0::nat) < length (fn_parameters u_plain)
   \<and> map_of [(''y'', Hint IntT)] (param_name (fn_parameters u_plain ! 0)) = None
   \<and> info_name (parameters (projr (get_function_signature u_plain)) ! 0) = ''x''
   \<and> info_annotation (parameters (projr (get_function_signature u_plain)) ! 0) = Any
   \<and> fst (call sample_run sample_check (projr (init u_plain)) [DictV [], Atom (IntA 3)] [])
       = Inr (Atom (StrA ''u''))"
proof -
  have a: "fn_type_hints u_plain = Inr [(''y'', Hint IntT)]"
    "(0::nat) < length (fn_parameters u_plain)"
    "map_of [(''y'', Hint IntT)] (param_name (fn_parameters u_plain ! 0)) = None"
    by (simp_all add: scenario_defs)
  with unconstrained_is_universal[of u_plain "[(''y'', Hint IntT)]" 0]
  have "\<exists>sg. get_function_signature u_plain = Inr sg
            \<and> info_name (parameters sg ! 0) = param_name (fn_parameters u_plain ! 0)
            \<and> info_annotation (parameters sg ! 0) = Any"
    by blast
  then have "info_annotation (parameters (projr (get_function_signature u_plain)) ! 0) = Any"
    and "info_name (parameters (projr (get_function_signature u_plain)) ! 0)
          = param_name (fn_parameters u_plain ! 0)"
    by auto
  moreover have "param_name (fn_parameters u_plain ! 0) = ''x''"
    by (simp add: scenario_defs)
  moreover have "fst (call sample_run sample_check (projr (init u_plain)) [DictV [], Atom (IntA 3)] [])
       = Inr (Atom (StrA ''u''))"
    by (simp add: scenario_defs dispatch_defs)
  ultimately show ?thesis using a by simp
qed

subsection \<open>C7: defaults do not exempt a parameter from the check\<close>

lemma scenario_h:
  "fst (call sample_run sample_check h_handle [] []) = Inr (Atom (StrA ''h''))"
  "fst (call sample_run sample_check h_handle [Atom (StrA ''s'')] [])
     = Inl (TypeError (NoMatchingFunction [Atom (StrA ''s'')] []))"
  "bind (fn_parameters h_default) [] [] = Inr []"
  "apply_defaults (fn_parameters h_default) [] = [(''x'', Atom (IntA 0))]"
  by (simp_all add: scenario_defs dispatch_defs)

text \<open>
  C7. Let a candidate be a function with its extracted descriptor, \<open>p\<close> one of its
  parameters with default \<open>d\<close> and declared type \<open>t\<close>, and let the arguments bind.  After
  the defaults are applied \<open>p\<close> is bound: to the value the binding gave it when the caller
  supplied one, to \<open>d\<close> otherwise; and a parameter that the caller passes neither by
  position nor by keyword is bound by the binding to nothing, hence to \<open>d\<close>.  In both
  cases that value is checked against \<open>t\<close>: when the checker does not accept it, the
  candidate does not survive, a loop that completes matches exactly the functions it
  matches on the list without the candidate, and, unless the candidate's block raises an
  exception that leaves the loop, the call is decided on the list without the candidate.
\<close>

theorem defaults_are_checked:
  assumes "get_function_signature f = Inr sg"
    and "fn_type_hints f = Inr hints"
    and "distinct (map param_name (fn_parameters f))"
    and "p \<in> set (fn_parameters f)"
    and "param_default p = Some d"
    and "hint_get hints (param_name p) = Hint t"
    and "bind (fn_parameters f) args kwargs = Inr bound_args"
  shows "map_of (apply_defaults (fn_parameters f) bound_args) (param_name p)
           = Some (case map_of bound_args (param_name p) of None \<Rightarrow> d | Some v \<Rightarrow> v)
       \<and> (check_no_varargs (fn_parameters f) = Inr ()
            \<and> param_name p \<notin> param_name ` set (take (length args) (fn_parameters f))
            \<and> map_of kwargs (param_name p) = None
            \<longrightarrow> map_of bound_args (param_name p) = None)
       \<and> (check_type (case map_of bound_args (param_name p) of None \<Rightarrow> d | Some v \<Rightarrow> v) t \<noteq> None
            \<longrightarrow> try_candidate check_type args kwargs (f, sg) \<noteq> Inr True
              \<and> \<not> survives check_type args kwargs (f, sg)
              \<and> (\<forall>ms. match_loop check_type args kwargs (pre @ (f, sg) # post) acc = Inr ms
                    \<longrightarrow> match_loop check_type args kwargs (pre @ post) acc = Inr ms)
              \<and> (\<not> propagates check_type args kwargs (f, sg)
                  \<longrightarrow> match_loop check_type args kwargs (pre @ (f, sg) # post) acc
                        = match_loop check_type args kwargs (pre @ post) acc
                    \<and> (\<forall>self. candidates self = pre @ (f, sg) # post
                          \<longrightarrow> call run check_type self args kwargs
                                = decide run self args kwargs
                                    (match_loop check_type args kwargs (pre @ post) []))))"
proof -
  let ?v = "case map_of bound_args (param_name p) of None \<Rightarrow> d | Some v \<Rightarrow> v"
  let ?args = "apply_defaults (fn_parameters f) bound_args"
  let ?c = "(f, sg)"
  have look: "map_of ?args (param_name p) = Some ?v"
    using assms(3,4,5) by (rule apply_defaults_lookup)
  from assms(1,2) have ps: "parameters sg = map (mk_param_info hints) (fn_parameters f)"
    by (auto simp: get_function_signature_def)
  let ?pi = "mk_param_info hints p"
  have pi: "?pi \<in> set (parameters sg)" "info_annotation ?pi = Hint t"
    "info_name ?pi = param_name p"
    using assms(4,6) by (auto simp: ps mk_param_info_def)
  have om: "check_no_varargs (fn_parameters f) = Inr ()
            \<and> param_name p \<notin> param_name ` set (take (length args) (fn_parameters f))
            \<and> map_of kwargs (param_name p) = None
            \<longrightarrow> map_of bound_args (param_name p) = None"
    using bind_omitted[OF _ assms(7)] by blast
  have accepted: "check_type ?v t = None" if "try_candidate check_type args kwargs ?c = Inr True"
  proof -
    from that assms(7) have "check_parameters check_type ?args (parameters sg) = Inr True"
      by (simp add: try_candidate_def)
    from check_parameters_True[OF this pi(1,2)] look pi(3) show ?thesis by simp
  qed
  have rejected: "try_candidate check_type args kwargs ?c \<noteq> Inr True
              \<and> \<not> survives check_type args kwargs ?c
              \<and> (\<forall>ms. match_loop check_type args kwargs (pre @ ?c # post) acc = Inr ms
                    \<longrightarrow> match_loop check_type args kwargs (pre @ post) acc = Inr ms)
              \<and> (\<not> propagates check_type args kwargs ?c
                  \<longrightarrow> match_loop check_type args kwargs (pre @ ?c # post) acc
                        = match_loop check_type args kwargs (pre @ post) acc
                    \<and> (\<forall>self. candidates self = pre @ ?c # post
                          \<longrightarrow> call run check_type self args kwargs
                                = decide run self args kwargs
                                    (match_loop check_type args kwargs (pre @ post) [])))"
    if r: "check_type ?v t \<noteq> None"
  proof -
    from r accepted have nt: "try_candidate check_type args kwargs ?c \<noteq> Inr True" by auto
    then have ns: "\<not> survives check_type args kwargs ?c" by (simp add: survives_def)
    have sk: "skipped check_type args kwargs ?c" if "\<not> propagates check_type args kwargs ?c"
      using that ns candidate_cases[of check_type args kwargs ?c] by blast
    have l: "match_loop check_type args kwargs (pre @ post) acc = Inr ms"
      if "match_loop check_type args kwargs (pre @ ?c # post) acc = Inr ms" for ms
    proof -
      from match_loop_result[OF that] have "\<not> propagates check_type args kwargs ?c" by simp
      from match_loop_skip_middle[OF sk[OF this], of pre post acc] that show ?thesis by simp
    qed
    have m: "match_loop check_type args kwargs (pre @ ?c # post) acc
                = match_loop check_type args kwargs (pre @ post) acc
             \<and> (\<forall>self. candidates self = pre @ ?c # post
                   \<longrightarrow> call run check_type self args kwargs
                         = decide run self args kwargs
                             (match_loop check_type args kwargs (pre @ post) []))"
      if "\<not> propagates check_type args kwargs ?c"
      using match_loop_skip_middle[OF sk[OF that]] skipped_call[OF sk[OF that]] by blast
    from l have l': "\<forall>ms. match_loop check_type args kwargs (pre @ ?c # post) acc = Inr ms
                    \<longrightarrow> match_loop check_type args kwargs (pre @ post) acc = Inr ms"
      by simp
    from m have m': "\<not> propagates check_type args kwargs ?c
                  \<longrightarrow> match_loop check_type args kwargs (pre @ ?c # post) acc
                        = match_loop check_type args kwargs (pre @ post) acc
                    \<and> (\<forall>self. candidates self = pre @ ?c # post
                          \<longrightarrow> call run check_type self args kwargs
                                = decide run self args kwargs
                                    (match_loop check_type args kwargs (pre @ post) []))"
      by (rule impI)
    from nt ns l' m' show ?thesis by (intro conjI)
  qed
  then have rejected': "check_type ?v t \<noteq> None \<longrightarrow>
              try_candidate check_type args kwargs ?c \<noteq> Inr True
              \<and> \<not> survives check_type args kwargs ?c
              \<and> (\<forall>ms. match_loop check_type args kwargs (pre @ ?c # post) acc = Inr ms
                    \<longrightarrow> match_loop check_type args kwargs (pre @ post) acc = Inr ms)
              \<and> (\<not> propagates check_type args kwargs ?c
                  \<longrightarrow> match_loop check_type args kwargs (pre @ ?c # post) acc
                        = match_loop check_type args kwargs (pre @ post) acc
                    \<and> (\<forall>self. candidates self = pre @ ?c # post
                          \<longrightarrow> call run check_type self args kwargs
                                = decide run self args kwargs
                                    (match_loop check_type args kwargs (pre @ post) [])))"
    by (rule impI)
  from look om rejected' show ?thesis by (intro conjI)
qed

text \<open>
  \<^verbatim>\<open>h(x: int = 0)\<close> called as \<^verbatim>\<open>h("s")\<close>: the supplied string is the bound value, the
  checker rejects it for \<^verbatim>\<open>int\<close>, the candidate does not survive and the call raises the
  no-match error.  Called as \<^verbatim>\<open>h()\<close>, \<^verbatim>\<open>x\<close> is bound to the default \<^verbatim>\<open>0\<close> and \<^verbatim>\<open>h\<close> is
  invoked.
\<close>

theorem defaults_are_checked_witness:
  "get_function_signature h_default = Inr (projr (get_function_signature h_default))
   \<and> fn_type_hints h_default = Inr [(''x'', Hint IntT)]
   \<and> distinct (map param_name (fn_parameters h_default))
   \<and> hd (fn_parameters h_default) \<in> set (fn_parameters h_default)
   \<and> param_default (hd (fn_parameters h_default)) = Some (Atom (IntA 0))
   \<and> hint_get [(''x'', Hint IntT)] (param_name (hd (fn_parameters h_default))) = Hint IntT
   \<and> bind (fn_parameters h_default) [Atom (StrA ''s'')] [] = Inr [(''x'', Atom (StrA ''s''))]
   \<and> map_of (apply_defaults (fn_parameters h_default) [(''x'', Atom (StrA ''s''))]) ''x''
       = Some (Atom (StrA ''s''))
   \<and> sample_check (Atom (StrA ''s'')) IntT = Some TypeCheckError
   \<and> candidates h_handle = [(h_default, projr (get_function_signature h_default))]
   \<and> \<not> survives sample_check [Atom (StrA ''s'')] []
        (h_default, projr (get_function_signature h_default))
   \<and> match_loop sample_check [Atom (StrA ''s'')] [] (candidates h_handle) [] = Inr []
   \<and> call sample_run sample_check h_handle [Atom (StrA ''s'')] []
       = (Inl (TypeError (NoMatchingFunction [Atom (StrA ''s'')] [])), h_handle)
   \<and> map_of (apply_defaults (fn_parameters h_default) []) ''x'' = Some (Atom (IntA 0))
   \<and> sample_check (Atom (IntA 0)) IntT = None
   \<and> call sample_run sample_check h_handle [] [] = (Inr (Atom (StrA ''h'')), h_handle)"
proof -
  let ?p = "hd (fn_parameters h_default)"
  let ?sg = "projr (get_function_signature h_default)"
  let ?s = "[Atom (StrA ''s'')]"
  have a: "get_function_signature h_default = Inr ?sg"
    "fn_type_hints h_default = Inr [(''x'', Hint IntT)]"
    "distinct (map param_name (fn_parameters h_default))"
    "?p \<in> set (fn_parameters h_default)"
    "param_default ?p = Some (Atom (IntA 0))"
    "hint_get [(''x'', Hint IntT)] (param_name ?p) = Hint IntT"
    "bind (fn_parameters h_default) ?s [] = Inr [(''x'', Atom (StrA ''s''))]"
    by (simp_all add: scenario_defs dispatch_defs)
  have n: "param_name ?p = ''x''" by (simp add: scenario_defs)
  have c: "candidates h_handle = [(h_default, ?sg)]"
    by (simp add: scenario_defs dispatch_defs)
  have np: "\<not> propagates sample_check ?s [] (h_default, ?sg)"
    by (simp add: scenario_defs dispatch_defs)
  have rej: "sample_check (Atom (StrA ''s'')) IntT = Some TypeCheckError" by simp
  note th = defaults_are_checked[OF a, where check_type = sample_check and pre = "[]"
      and post = "[]" and acc = "[]" and run = sample_run, unfolded n]
  from th have look: "map_of (apply_defaults (fn_parameters h_default) [(''x'', Atom (StrA ''s''))]) ''x''
       = Some (Atom (StrA ''s''))"
    by simp
  from th rej have ns: "\<not> survives sample_check ?s [] (h_default, ?sg)" by simp
  from th rej np have loop: "match_loop sample_check ?s [] ([] @ (h_default, ?sg) # []) []
      = match_loop sample_check ?s [] ([] @ []) []"
    and dec: "\<forall>self. candidates self = [] @ (h_default, ?sg) # []
        \<longrightarrow> call sample_run sample_check self ?s []
            = decide sample_run self ?s [] (match_loop sample_check ?s [] ([] @ []) [])"
    by simp_all
  from loop c have l: "match_loop sample_check ?s [] (candidates h_handle) [] = Inr []"
    by (simp del: match_loop.simps(2) add: match_loop.simps(1))
  from dec c have "call sample_run sample_check h_handle ?s []
      = decide sample_run h_handle ?s [] (match_loop sample_check ?s [] ([] @ []) [])"
    by simp
  then have nm: "call sample_run sample_check h_handle ?s []
       = (Inl (TypeError (NoMatchingFunction ?s [])), h_handle)"
    by (simp add: decide_def)
  have b0: "bind (fn_parameters h_default) [] [] = Inr []"
    by (simp add: scenario_defs dispatch_defs)
  from defaults_are_checked[OF a(1-6) b0, where check_type = sample_check, unfolded n]
  have d0: "map_of (apply_defaults (fn_parameters h_default) []) ''x'' = Some (Atom (IntA 0))"
    by simp
  have ok: "sample_check (Atom (IntA 0)) IntT = None" by simp
  have inv: "call sample_run sample_check h_handle [] [] = (Inr (Atom (StrA ''h'')), h_handle)"
    by (simp add: scenario_defs dispatch_defs)
  from a look rej c ns l nm d0 ok inv show ?thesis by simp
qed

subsection \<open>C10: a TypeError of the type check is caught as well\<close>

text \<open>
  C10. Inside the predicate only \<^verbatim>\<open>TypeCheckError\<close> becomes the answer \<^verbatim>\<open>False\<close>; a
  \<^verbatim>\<open>TypeError\<close> that the checker raises leaves the predicate.  When the arguments bind
  and the checker raises \<^verbatim>\<open>TypeError\<close> on the first parameter that does not pass, the
  candidate's block ends with that \<^verbatim>\<open>TypeError\<close>.  Whenever a candidate's block ends
  with a \<^verbatim>\<open>TypeError\<close>, from the binding or from the type check, the handler of the loop
  catches it: the candidate is not matched, nothing propagates, the loop goes on as on
  the list without that candidate, and the call is decided by the loop over the list
  without it, so that its outcome is the outcome on a handle without that candidate (for
  bodies whose outcome does not depend on which of the two handles they run on).
\<close>

theorem type_error_in_check_is_caught:
  "(check_type v t = Some TypeCheckError \<longrightarrow> check_argument_type check_type v t = Inr False)
   \<and> (check_type v t = Some (TypeError m) \<longrightarrow>
        check_argument_type check_type v t = Inl (TypeError m))
   \<and> (bind (fn_parameters (fst c)) args kwargs = Inr bound_args
        \<and> parameters (snd c) = before @ pi # after
        \<and> check_parameters check_type (apply_defaults (fn_parameters (fst c)) bound_args) before
            = Inr True
        \<and> info_annotation pi = Hint t
        \<and> map_of (apply_defaults (fn_parameters (fst c)) bound_args) (info_name pi) = Some v
        \<and> check_type v t = Some (TypeError m)
        \<longrightarrow> try_candidate check_type args kwargs c = Inl (TypeError m))
   \<and> (try_candidate check_type args kwargs c = Inl (TypeError m) \<longrightarrow>
        \<not> survives check_type args kwargs c
        \<and> \<not> propagates check_type args kwargs c
        \<and> match_loop check_type args kwargs (pre @ c # post) acc
            = match_loop check_type args kwargs (pre @ post) acc
        \<and> (\<forall>self. candidates self = pre @ c # post
              \<longrightarrow> call run check_type self args kwargs
                    = decide run self args kwargs
                        (match_loop check_type args kwargs (pre @ post) []))
        \<and> (\<forall>self self'. candidates self = pre @ c # post \<and> candidates self' = pre @ post
                \<and> (\<forall>code. fst (run code args kwargs self) = fst (run code args kwargs self'))
              \<longrightarrow> fst (call run check_type self args kwargs) = fst (call run check_type self' args kwargs)))"
proof (intro conjI impI)
  assume "check_type v t = Some TypeCheckError"
  then show "check_argument_type check_type v t = Inr False"
    by (simp add: check_argument_type_def)
next
  assume "check_type v t = Some (TypeError m)"
  then show "check_argument_type check_type v t = Inl (TypeError m)"
    by (simp add: check_argument_type_def)
next
  assume a: "bind (fn_parameters (fst c)) args kwargs = Inr bound_args
        \<and> parameters (snd c) = before @ pi # after
        \<and> check_parameters check_type (apply_defaults (fn_parameters (fst c)) bound_args) before
            = Inr True
        \<and> info_annotation pi = Hint t
        \<and> map_of (apply_defaults (fn_parameters (fst c)) bound_args) (info_name pi) = Some v
        \<and> check_type v t = Some (TypeError m)"
  then show "try_candidate check_type args kwargs c = Inl (TypeError m)"
    by (simp add: try_candidate_def check_parameters_append check_argument_type_def)
next
  assume t: "try_candidate check_type args kwargs c = Inl (TypeError m)"
  then have s: "skipped check_type args kwargs c" by (simp add: skipped_def)
  from t show "\<not> survives check_type args kwargs c" by (simp add: survives_def)
  from t show "\<not> propagates check_type args kwargs c" by (simp add: propagates_def)
  from s show "match_loop check_type args kwargs (pre @ c # post) acc
            = match_loop check_type args kwargs (pre @ post) acc"
    by (rule match_loop_skip_middle)
  from s show "\<forall>self. candidates self = pre @ c # post
              \<longrightarrow> call run check_type self args kwargs
                    = decide run self args kwargs
                        (match_loop check_type args kwargs (pre @ post) [])"
    using skipped_call by blast
  from s show "\<forall>self self'. candidates self = pre @ c # post \<and> candidates self' = pre @ post
                \<and> (\<forall>code. fst (run code args kwargs self) = fst (run code args kwargs self'))
              \<longrightarrow> fst (call run check_type self args kwargs) = fst (call run check_type self' args kwargs)"
    using skipped_call_outcome[of check_type args kwargs c _ pre post _ run] by blast
qed

text \<open>
  \<^verbatim>\<open>k(x: Broken)\<close> and \<^verbatim>\<open>k(x: int)\<close> called as \<^verbatim>\<open>k(1)\<close>: the checker raises
  \<^verbatim>\<open>TypeError\<close> on the first candidate, and the call is the call of the second.
\<close>

theorem type_error_in_check_is_caught_witness:
  "sample_check (Atom (IntA 1)) BrokenT
     = Some (TypeError (Text ''isinstance() arg 2 must be a type''))
   \<and> check_argument_type sample_check (Atom (IntA 1)) BrokenT
       = Inl (TypeError (Text ''isinstance() arg 2 must be a type''))
   \<and> fst (hd (candidates k_handle)) = k_broken
   \<and> try_candidate sample_check [Atom (IntA 1)] [] (hd (candidates k_handle))
       = Inl (TypeError (Text ''isinstance() arg 2 must be a type''))
   \<and> \<not> survives sample_check [Atom (IntA 1)] [] (hd (candidates k_handle))
   \<and> \<not> propagates sample_check [Atom (IntA 1)] [] (hd (candidates k_handle))
   \<and> fst (call sample_run sample_check k_handle [Atom (IntA 1)] []) = Inr (Atom (StrA ''g_int''))"
proof -
  let ?c = "hd (candidates k_handle)"
  let ?m = "Text ''isinstance() arg 2 must be a type'' :: atom message"
  have r: "sample_check (Atom (IntA 1)) BrokenT = Some (TypeError ?m)" by simp
  have f: "fst ?c = k_broken" by (simp add: scenario_defs dispatch_defs)
  have t: "try_candidate sample_check [Atom (IntA 1)] [] ?c = Inl (TypeError ?m)"
    by (simp add: scenario_defs dispatch_defs)
  note th = type_error_in_check_is_caught[of sample_check "Atom (IntA 1)" BrokenT ?m ?c
      "[Atom (IntA 1)]" "[]"]
  from th r have "check_argument_type sample_check (Atom (IntA 1)) BrokenT = Inl (TypeError ?m)"
    by blast
  moreover from th t have "\<not> survives sample_check [Atom (IntA 1)] [] ?c"
    and "\<not> propagates sample_check [Atom (IntA 1)] [] ?c" by blast+
  moreover have "fst (call sample_run sample_check k_handle [Atom (IntA 1)] []) = Inr (Atom (StrA ''g_int''))"
    by (simp add: scenario_defs dispatch_defs)
  ultimately show ?thesis using r f t by simp
qed

end
